theory Spec2Isabelle
  imports Complex_Main "HOL-Library.Multiset" "HOL-Library.Log_Nat"
begin

section \<open>Skill match analysis (app/main.py, lines 819-822)\<close>

text \<open>
  The dashboard script computes, from the two skill collections delivered by the
  extractor,
  \<^verbatim>\<open>
    matched_skills = set(resume_skills) & set(jd_skills)
    missing_skills = set(jd_skills) - set(resume_skills)
    extra_skills = set(resume_skills) - set(jd_skills)
    match_score = len(matched_skills) / len(jd_skills) * 100 if jd_skills else 0
  \<close>
  The collections are iterables with a length (the script also calls \<open>sorted\<close>,
  \<open>len\<close> and \<open>list\<close> on them); they are lists here, and a Python set is a list
  without duplicates. \<open>len(jd_skills)\<close> is the length of the collection itself, not
  of \<open>set(jd_skills)\<close>. The score of this section is an exact rational: the
  rounding of the one division and the one multiplication is not part of it.
  The four statements sit under the guard
  \<^verbatim>\<open>if resume_text and jd_text and resume_skills and jd_skills:\<close>
  of the script; the conditional expression of the last line handles an empty
  \<open>jd_skills\<close> on its own.
\<close>

record 'a match_result =
  matched_skills :: "'a set"
  missing_skills :: "'a set"
  extra_skills :: "'a set"
  match_score :: rat

definition skill_match :: "'a list \<Rightarrow> 'a list \<Rightarrow> 'a match_result" where
  "skill_match resume_skills jd_skills =
     (let matched = set resume_skills \<inter> set jd_skills;
          missing = set jd_skills - set resume_skills;
          extra = set resume_skills - set jd_skills;
          score = (if jd_skills \<noteq> []
                   then of_nat (card matched) / of_nat (length jd_skills) * 100
                   else 0)
      in \<lparr>matched_skills = matched, missing_skills = missing,
          extra_skills = extra, match_score = score\<rparr>)"

section \<open>Interview evaluations (src/interview_prep.py)\<close>

subsection \<open>Binary floating point\<close>

text \<open>
  A Python \<open>float\<close> is an IEEE 754 binary64 number: a finite one is a rational
  \<open>k * 2 ^ e\<close> with \<open>\<bar>k\<bar> < 2 ^ 53\<close> and \<open>- 1074 \<le> e \<le> 971\<close>, and there are
  the two infinities and NaN. Every operation returns the exact result rounded to
  the nearest such number, and to the one with the even \<open>k\<close> when two are equally
  near. The negative zero is equal to zero and is not told apart from it here.

  \<open>round_half_even\<close> is the nearest integer, the even one at a tie.
  \<open>floor_log2 x\<close> is, for a positive \<open>x\<close>, the \<open>l\<close> with
  \<open>2 ^ l \<le> x < 2 ^ (l + 1)\<close>. \<open>ulp_exponent x\<close> is the exponent \<open>e\<close> of the
  doubles around \<open>x\<close>: 52 below \<open>floor_log2\<close>, and \<open>- 1074\<close> in the subnormal
  range. \<open>round_double\<close> rounds to a multiple of \<open>2 ^ e\<close>, and \<open>to_double\<close>
  gives an infinity when the rounded value is out of range: when it is
  \<open>2 ^ 1024\<close> or more in absolute value, which is read off its \<open>floor_log2\<close>.
\<close>

definition round_half_even :: "rat \<Rightarrow> int" where
  "round_half_even x =
     (let f = \<lfloor>x\<rfloor>; d = x - of_int f
      in if d < 1 / 2 then f else if 1 / 2 < d then f + 1
         else if even f then f else f + 1)"

definition floor_log2 :: "rat \<Rightarrow> int" where
  "floor_log2 x = (if 1 \<le> x then bitlen \<lfloor>x\<rfloor> - 1 else - bitlen (\<lceil>1 / x\<rceil> - 1))"

definition ulp_exponent :: "rat \<Rightarrow> int" where
  "ulp_exponent x = max (floor_log2 \<bar>x\<bar> - 52) (- 1074)"

definition round_double :: "rat \<Rightarrow> rat" where
  "round_double x =
     (if x = 0 then 0
      else of_int (round_half_even (x / 2 powi ulp_exponent x)) * 2 powi ulp_exponent x)"

datatype double = Finite rat | PosInf | NegInf | NaN

definition to_double :: "rat \<Rightarrow> double" where
  "to_double x =
     (let r = round_double x
      in if 1024 \<le> floor_log2 \<bar>r\<bar> then (if 0 < r then PosInf else NegInf) else Finite r)"

text \<open>\<open>x + y\<close> on two floats.\<close>

fun float_add :: "double \<Rightarrow> double \<Rightarrow> double" where
  "float_add (Finite a) (Finite b) = to_double (a + b)"
| "float_add NaN y = NaN"
| "float_add x NaN = NaN"
| "float_add PosInf NegInf = NaN"
| "float_add NegInf PosInf = NaN"
| "float_add PosInf y = PosInf"
| "float_add x PosInf = PosInf"
| "float_add NegInf y = NegInf"
| "float_add x NegInf = NegInf"

datatype py_error = TypeError | OverflowError | ZeroDivisionError

text \<open>\<open>x / y\<close> on two floats; Python raises where IEEE 754 divides by zero.\<close>

fun float_div :: "double \<Rightarrow> double \<Rightarrow> py_error + double" where
  "float_div x (Finite b) =
     (if b = 0 then Inl ZeroDivisionError
      else Inr (case x of
                  Finite a \<Rightarrow> to_double (a / b)
                | PosInf \<Rightarrow> if 0 < b then PosInf else NegInf
                | NegInf \<Rightarrow> if 0 < b then NegInf else PosInf
                | NaN \<Rightarrow> NaN))"
| "float_div x NaN = Inr NaN"
| "float_div (Finite a) y = Inr (Finite 0)"
| "float_div x y = Inr NaN"

text \<open>
  \<open>x >= n\<close> for a float and an integer: the two values are compared exactly, and
  NaN is not above anything.
\<close>

fun float_ge :: "double \<Rightarrow> int \<Rightarrow> bool" where
  "float_ge (Finite a) n = (of_int n \<le> a)"
| "float_ge PosInf n = True"
| "float_ge NegInf n = False"
| "float_ge NaN n = False"

text \<open>
  \<open>round(x, 1)\<close> on a float: the interpreter writes the exact value of the double
  with one decimal, taking the nearest tenth and the even one at a tie, and reads
  the decimal back as a double. A tie needs an exact value half way between two
  tenths, as 0.25 is; 70.35 is not a double, and the double next to it is below
  it. An infinity and NaN are returned as they are. The tenth next to a finite
  double is never out of range, so the \<open>OverflowError\<close> of the reading is no
  branch here.
\<close>

definition py_round1 :: "rat \<Rightarrow> rat" where
  "py_round1 x = of_int (round_half_even (x * 10)) / 10"

fun float_round1 :: "double \<Rightarrow> double" where
  "float_round1 (Finite a) = to_double (py_round1 a)"
| "float_round1 x = x"

subsection \<open>Python values and dictionaries\<close>

text \<open>
  An evaluation is a Python \<open>dict\<close> with string keys: either the literal built by
  \<open>_create_fallback_evaluation\<close>, or whatever \<open>json.loads\<close> made of the
  model's answer. Its values are JSON values; a JSON number is an \<open>int\<close> of any
  size or a \<open>float\<close>. A dictionary is a map from keys to values; a nested
  dictionary, whose order of keys is visible when it is printed, is an
  association list.
\<close>

datatype number = PyInt int | PyFloat double

datatype pyval = PyNone | PyBool bool | Num number | Str string
  | Lst "pyval list" | Dict "(string \<times> pyval) list"

type_synonym pydict = "string \<rightharpoonup> pyval"

text \<open>\<open>d.get(k, dflt)\<close>.\<close>

definition dict_get :: "pydict \<Rightarrow> string \<Rightarrow> pyval \<Rightarrow> pyval" where
  "dict_get d k dflt = (case d k of None \<Rightarrow> dflt | Some v \<Rightarrow> v)"

text \<open>
  The number a value stands for as an operand of \<open>+\<close>: \<open>bool\<close> is a numeric
  type of Python (\<open>True\<close> is 1), every other non-number makes \<open>+\<close> raise
  \<open>TypeError\<close>.
\<close>

fun num_of :: "pyval \<Rightarrow> number option" where
  "num_of (Num n) = Some n"
| "num_of (PyBool b) = Some (PyInt (if b then 1 else 0))"
| "num_of _ = None"

text \<open>
  An \<open>int\<close> that meets a \<open>float\<close> is converted first: to the nearest double,
  and with \<open>OverflowError\<close> when that is out of range. The quotient of two
  \<open>int\<close>s is the exact quotient rounded once, with the same error.
\<close>

definition finite_or_overflow :: "double \<Rightarrow> py_error + double" where
  "finite_or_overflow x = (case x of Finite r \<Rightarrow> Inr (Finite r) | _ \<Rightarrow> Inl OverflowError)"

definition int_to_double :: "int \<Rightarrow> py_error + double" where
  "int_to_double i = finite_or_overflow (to_double (of_int i))"

text \<open>\<open>x + y\<close> on two numbers.\<close>

fun num_add :: "number \<Rightarrow> number \<Rightarrow> py_error + number" where
  "num_add (PyInt a) (PyInt b) = Inr (PyInt (a + b))"
| "num_add (PyInt a) (PyFloat y) =
     (case int_to_double a of Inl e \<Rightarrow> Inl e | Inr x \<Rightarrow> Inr (PyFloat (float_add x y)))"
| "num_add (PyFloat x) (PyInt b) =
     (case int_to_double b of Inl e \<Rightarrow> Inl e | Inr y \<Rightarrow> Inr (PyFloat (float_add x y)))"
| "num_add (PyFloat x) (PyFloat y) = Inr (PyFloat (float_add x y))"

text \<open>
  The builtin \<open>sum\<close>: the accumulator starts at the integer 0 and each element
  is added to it in turn, in the order of the list, each addition rounding on its
  own; the first element that is not a number raises. (From version 3.12 on the
  interpreter carries a correction term along a run of floats; what is described
  here is the sum as the language defines it and as the versions up to 3.11 compute
  it.)
\<close>

fun sum_from :: "number \<Rightarrow> pyval list \<Rightarrow> py_error + number" where
  "sum_from acc [] = Inr acc"
| "sum_from acc (v # vs) =
     (case num_of v of
        None \<Rightarrow> Inl TypeError
      | Some x \<Rightarrow> (case num_add acc x of Inl e \<Rightarrow> Inl e | Inr acc' \<Rightarrow> sum_from acc' vs))"

text \<open>\<open>x / n\<close> for a number \<open>x\<close> and an \<open>int\<close> \<open>n\<close>: always a float.\<close>

fun true_div :: "number \<Rightarrow> int \<Rightarrow> py_error + double" where
  "true_div (PyInt a) n =
     (if n = 0 then Inl ZeroDivisionError
      else finite_or_overflow (to_double (of_int a / of_int n)))"
| "true_div (PyFloat x) n =
     (case int_to_double n of Inl e \<Rightarrow> Inl e | Inr y \<Rightarrow> float_div x y)"

text \<open>The arithmetic mean of a list of scores, used to state the properties.\<close>

definition mean :: "rat list \<Rightarrow> rat" where
  "mean scores = sum_list scores / of_nat (length scores)"

subsection \<open>The readiness score\<close>

text \<open>
  \<open>calculate_interview_readiness_score\<close> returns a dictionary with the keys
  \<open>overall_score\<close>, \<open>readiness_level\<close> and \<open>recommendations\<close>, and, for a list
  of evaluations that is not empty, \<open>total_questions\<close>. The record has one field for
  each key; \<open>total_questions\<close> is \<open>None\<close> when the dictionary has no such key.
  The levels are compared with the unrounded average; the result carries the rounded one.
\<close>

record readiness =
  overall_score :: number
  readiness_level :: string
  recommendations :: "string list"
  total_questions :: "nat option"

definition calculate_interview_readiness_score :: "pydict list \<Rightarrow> py_error + readiness" where
  "calculate_interview_readiness_score evaluations =
     (if evaluations = [] then
        Inr \<lparr>overall_score = PyInt 0, readiness_level = ''Not Started'',
             recommendations = [''Start practicing interview questions''],
             total_questions = None\<rparr>
      else
        (case sum_from (PyInt 0)
                (map (\<lambda>eval_data. dict_get eval_data ''overall_score'' (Num (PyInt 0))) evaluations) of
           Inl e \<Rightarrow> Inl e
         | Inr total_score \<Rightarrow>
             (case true_div total_score (int (length evaluations)) of
                Inl e \<Rightarrow> Inl e
              | Inr avg_score \<Rightarrow>
                  (let (level, recs) =
                         (if float_ge avg_score 90 then
                            (''Excellent'', [''You're well-prepared! Focus on company-specific research''])
                          else if float_ge avg_score 80 then
                            (''Good'', [''Strong preparation. Practice a few more questions''])
                          else if float_ge avg_score 70 then
                            (''Satisfactory'', [''Good start. Focus on technical depth and examples''])
                          else if float_ge avg_score 60 then
                            (''Needs Improvement'', [''Practice more. Focus on STAR method and technical details''])
                          else
                            (''Requires Significant Work'', [''Intensive practice needed. Consider mock interviews'']))
                   in Inr \<lparr>overall_score = PyFloat (float_round1 avg_score), readiness_level = level,
                           recommendations = recs,
                           total_questions = Some (length evaluations)\<rparr>))))"

text \<open>
  The doubles: a finite one is a value that rounding leaves as it is. Every result
  of an addition is one.
\<close>

fun is_double :: "double \<Rightarrow> bool" where
  "is_double (Finite r) = (to_double r = Finite r)"
| "is_double x = True"

fun is_number :: "number \<Rightarrow> bool" where
  "is_number (PyInt i) = True"
| "is_number (PyFloat x) = is_double x"

subsection \<open>The fallback evaluation\<close>

text \<open>
  \<open>str.split()\<close> without arguments cuts a string at runs of white space and drops
  the empty pieces. Characters are the code points below 256 here; \<open>is_space\<close>
  lists the ones for which \<open>str.isspace\<close> holds. \<open>split_words\<close> scans the string
  once, \<open>w\<close> being the word read so far.
\<close>

definition is_space :: "char \<Rightarrow> bool" where
  "is_space c \<longleftrightarrow> (of_char c :: nat) \<in> {9, 10, 11, 12, 13, 28, 29, 30, 31, 32, 133, 160}"

fun split_words :: "string \<Rightarrow> string \<Rightarrow> string list" where
  "split_words w [] = (if w = [] then [] else [w])"
| "split_words w (c # cs) =
     (if is_space c then (if w = [] then split_words [] cs else w # split_words [] cs)
      else split_words (w @ [c]) cs)"

definition py_split :: "string \<Rightarrow> string list" where
  "py_split s = split_words [] s"

text \<open>
  \<open>_create_fallback_evaluation(question, user_answer)\<close>. The question is not read.
\<close>

definition create_fallback_evaluation :: "pydict \<Rightarrow> string \<Rightarrow> pydict" where
  "create_fallback_evaluation question user_answer =
     (let word_count = length (py_split user_answer);
          (score, rating) =
            (if 100 < word_count then (85, ''good'')
             else if 50 < word_count then (70, ''satisfactory'')
             else (55, ''needs_improvement''))
      in map_of
           [(''overall_score'', Num (PyInt score)),
            (''scores'', Dict [(''technical_depth'', Num (PyInt (score - 5))),
                               (''communication'', Num (PyInt (score + 5))),
                               (''problem_solving'', Num (PyInt score)),
                               (''relevance'', Num (PyInt (score + 10)))]),
            (''strengths'', Lst [Str ''Provided a response'', Str ''Showed engagement'']),
            (''improvements'', Lst [Str ''Add more specific examples'', Str ''Include technical details'']),
            (''detailed_feedback'', Str ''Your answer shows engagement with the question. Consider adding more specific examples and technical details to strengthen your response.''),
            (''follow_up_suggestions'', Lst [Str ''Use the STAR method for behavioral questions'', Str ''Include quantifiable results'']),
            (''rating'', Str rating)])"

section \<open>Skill extraction with the NER strategy (app/main.py, lines 748-755 and 793-800)\<close>

text \<open>
  For the resume, and in the same way for the job description, the script runs
  \<^verbatim>\<open>
    if use_ner:
        try:
            resume_skills = extract_skills_ner(resume_text)
        except Exception as e:
            st.warning(...)
            resume_skills = extract_skills(resume_text)
    else:
        resume_skills = extract_skills(resume_text)
  \<close>
  The two extractors are imported from the modules \<open>ner_skill_extractor\<close> and
  \<open>skills\<close>, whose code is not embedded here: they are parameters, each either
  returning a list of skills or raising an exception (of class \<open>Exception\<close>, the
  one the handler catches). The warning shown in the page is not modelled.
\<close>

datatype py_exception = Exception string

definition extract_skills_step ::
  "bool \<Rightarrow> (string \<Rightarrow> py_exception + 'a list) \<Rightarrow> (string \<Rightarrow> py_exception + 'a list)
     \<Rightarrow> string \<Rightarrow> py_exception + 'a list" where
  "extract_skills_step use_ner extract_skills_ner extract_skills text =
     (if use_ner then
        (case extract_skills_ner text of
           Inr skills \<Rightarrow> Inr skills
         | Inl e \<Rightarrow> extract_skills text)
      else extract_skills text)"

section \<open>Properties of the skill match\<close>

lemma card_matched_le_length:
  "card (set resume_skills \<inter> set jd_skills) \<le> length jd_skills"
proof -
  have "card (set resume_skills \<inter> set jd_skills) \<le> card (set jd_skills)"
    by (rule card_mono) auto
  also have "\<dots> \<le> length jd_skills"
    by (rule card_length)
  finally show ?thesis .
qed

lemma card_matched_full_iff:
  assumes "distinct jd_skills"
  shows "card (set resume_skills \<inter> set jd_skills) = length jd_skills
           \<longleftrightarrow> set jd_skills \<subseteq> set resume_skills"
proof
  assume full: "card (set resume_skills \<inter> set jd_skills) = length jd_skills"
  have "card (set jd_skills) = length jd_skills"
    using assms by (rule distinct_card)
  with full have "card (set resume_skills \<inter> set jd_skills) = card (set jd_skills)"
    by simp
  moreover have "set resume_skills \<inter> set jd_skills \<subseteq> set jd_skills"
    by auto
  ultimately have "set resume_skills \<inter> set jd_skills = set jd_skills"
    by (simp add: card_subset_eq)
  then show "set jd_skills \<subseteq> set resume_skills"
    by auto
next
  assume "set jd_skills \<subseteq> set resume_skills"
  then have "set resume_skills \<inter> set jd_skills = set jd_skills"
    by auto
  then show "card (set resume_skills \<inter> set jd_skills) = length jd_skills"
    using assms by (simp add: distinct_card)
qed

text \<open>
  C1. For every two skill collections, \<open>matched\<close> is the intersection of the two
  sets of skills, \<open>missing\<close> is the job's skills without the resume's, and
  \<open>extra\<close> is the resume's skills without the job's.
\<close>

theorem match_partitions:
  "matched_skills (skill_match resume_skills jd_skills) = set resume_skills \<inter> set jd_skills
   \<and> missing_skills (skill_match resume_skills jd_skills) = set jd_skills - set resume_skills
   \<and> extra_skills (skill_match resume_skills jd_skills) = set resume_skills - set jd_skills"
  by (simp add: skill_match_def Let_def)



text \<open>
  C7. For a job skill set that is not empty (a collection without duplicates), the
  match score lies between 0 and 100, and it is 100 exactly when every job skill is
  a resume skill.
\<close>

theorem match_score_range_and_full:
  assumes "jd_skills \<noteq> []" and "distinct jd_skills"
  shows "0 \<le> match_score (skill_match resume_skills jd_skills)
         \<and> match_score (skill_match resume_skills jd_skills) \<le> 100
         \<and> (match_score (skill_match resume_skills jd_skills) = 100
              \<longleftrightarrow> set jd_skills \<subseteq> set resume_skills)"
proof -
  let ?m = "card (set resume_skills \<inter> set jd_skills)"
  let ?n = "length jd_skills"
  have n_pos: "0 < ?n"
    using assms(1) by simp
  have score: "match_score (skill_match resume_skills jd_skills)
                 = of_nat ?m / of_nat ?n * 100"
    using assms(1) by (simp add: skill_match_def Let_def)
  have m_le: "?m \<le> ?n"
    by (rule card_matched_le_length)
  define q :: rat where "q = of_nat ?m / of_nat ?n"
  have lower: "0 \<le> q"
    by (simp add: q_def)
  have "(of_nat ?m :: rat) \<le> of_nat ?n"
    using m_le by simp
  then have upper: "q \<le> 1"
    using n_pos by (simp add: q_def divide_le_eq)
  have "q = 1 \<longleftrightarrow> (of_nat ?m :: rat) = of_nat ?n"
    using n_pos by (auto simp: q_def)
  also have "\<dots> \<longleftrightarrow> ?m = ?n"
    by (rule of_nat_eq_iff)
  also have "\<dots> \<longleftrightarrow> set jd_skills \<subseteq> set resume_skills"
    using assms(2) by (rule card_matched_full_iff)
  finally have full: "q = 1 \<longleftrightarrow> set jd_skills \<subseteq> set resume_skills" .
  have "0 \<le> q * 100" "q * 100 \<le> 100" "q * 100 = 100 \<longleftrightarrow> q = 1"
    using lower upper by linarith+
  then have "0 \<le> q * 100 \<and> q * 100 \<le> 100
             \<and> (q * 100 = 100 \<longleftrightarrow> set jd_skills \<subseteq> set resume_skills)"
    using full by blast
  then show ?thesis
    unfolding score q_def .
qed

theorem match_score_range_and_full_witness:
  "[''python'', ''docker'', ''aws''] \<noteq> [] \<and> distinct [''python'', ''docker'', ''aws'']
   \<and> 0 \<le> match_score (skill_match [''python'', ''sql''] [''python'', ''docker'', ''aws''])
   \<and> match_score (skill_match [''python'', ''sql''] [''python'', ''docker'', ''aws'']) \<le> 100
   \<and> match_score (skill_match [''python'', ''sql''] [''python'', ''docker'', ''aws'']) \<noteq> 100
   \<and> match_score (skill_match [''aws'', ''python'', ''docker''] [''python'', ''docker'', ''aws'']) = 100"
proof -
  have ne: "[''python'', ''docker'', ''aws''] \<noteq> []"
    by simp
  have di: "distinct [''python'', ''docker'', ''aws'']"
    by simp
  show ?thesis
    using ne di
      match_score_range_and_full [OF ne di, of "[''python'', ''sql'']"]
      match_score_range_and_full [OF ne di, of "[''aws'', ''python'', ''docker'']"]
    by simp
qed

section \<open>Properties of the rounding\<close>

lemma floor_log2_ge1:
  assumes "1 \<le> x"
  shows "2 powi floor_log2 x \<le> x \<and> x < 2 powi (floor_log2 x + 1)"
proof -
  define n where "n = \<lfloor>x\<rfloor>"
  have n_pos: "0 < n"
    using assms unfolding n_def by linarith
  have lo: "of_int n \<le> x" and hi: "x < of_int n + 1"
    unfolding n_def by linarith+
  from bitlen_bounds [OF n_pos] have b1: "2 ^ nat (bitlen n - 1) \<le> n" and b2: "n < 2 ^ nat (bitlen n)"
    by simp_all
  have bl: "1 \<le> bitlen n"
    using n_pos bitlen_eq_zero_iff [of n] bitlen_nonneg [of n] by linarith
  have L: "floor_log2 x = bitlen n - 1"
    using assms by (simp add: floor_log2_def n_def)
  have "(2::rat) powi (bitlen n - 1) = 2 ^ nat (bitlen n - 1)"
    using bl by (simp add: power_int_def)
  also have "\<dots> = of_int (2 ^ nat (bitlen n - 1))"
    by simp
  also have "\<dots> \<le> of_int n"
    using b1 by (simp only: of_int_le_iff)
  finally have one: "2 powi floor_log2 x \<le> x"
    using lo unfolding L by linarith
  have "n + 1 \<le> 2 ^ nat (bitlen n)"
    using b2 by linarith
  then have "(of_int (n + 1) :: rat) \<le> of_int (2 ^ nat (bitlen n))"
    by (simp only: of_int_le_iff)
  also have "\<dots> = 2 ^ nat (bitlen n)"
    by simp
  also have "\<dots> = 2 powi (bitlen n - 1 + 1)"
    using bl by (simp add: power_int_def)
  finally have "x < 2 powi (floor_log2 x + 1)"
    using hi unfolding L by simp
  with one show ?thesis
    by (rule conjI)
qed

lemma floor_log2_lt1:
  assumes "0 < x" and "x < 1"
  shows "2 powi floor_log2 x \<le> x \<and> x < 2 powi (floor_log2 x + 1)"
proof -
  define y where "y = 1 / x"
  define m where "m = \<lceil>y\<rceil>"
  define c where "c = bitlen (m - 1)"
  have y_gt: "1 < y"
    using assms by (simp add: y_def)
  have x_y: "x = 1 / y"
    by (simp add: y_def)
  have m_ge: "2 \<le> m"
    using y_gt unfolding m_def by linarith
  have up: "y \<le> of_int m" and low: "of_int m - 1 < y"
    unfolding m_def by linarith+
  have m1_pos: "0 < m - 1"
    using m_ge by linarith
  from bitlen_bounds [OF m1_pos] have b1: "2 ^ nat (c - 1) \<le> m - 1" and b2: "m - 1 < 2 ^ nat c"
    unfolding c_def by simp_all
  have c_ge: "1 \<le> c"
    using m1_pos bitlen_eq_zero_iff [of "m - 1"] bitlen_nonneg [of "m - 1"] unfolding c_def
    by linarith
  have L: "floor_log2 x = - c"
    using assms by (simp add: floor_log2_def c_def m_def y_def)
  have "m \<le> 2 ^ nat c"
    using b2 by linarith
  then have "(of_int m :: rat) \<le> of_int (2 ^ nat c)"
    by (simp only: of_int_le_iff)
  moreover have "(of_int (2 ^ nat c) :: rat) = 2 ^ nat c"
    by simp
  ultimately have y_le: "y \<le> 2 ^ nat c"
    using up by linarith
  have "(of_int (2 ^ nat (c - 1)) :: rat) \<le> of_int (m - 1)"
    using b1 by (simp only: of_int_le_iff)
  moreover have "(of_int (2 ^ nat (c - 1)) :: rat) = 2 ^ nat (c - 1)"
    by simp
  moreover have "(of_int (m - 1) :: rat) = of_int m - 1"
    by simp
  ultimately have y_gt': "2 ^ nat (c - 1) < y"
    using low by linarith
  have "(2::rat) powi (- c) = 1 / 2 ^ nat c"
    using c_ge by (simp add: power_int_def field_simps)
  also have "\<dots> \<le> 1 / y"
    using y_le y_gt by (simp add: frac_le)
  finally have "2 powi (- c) \<le> 1 / y" .
  then have one: "2 powi floor_log2 x \<le> x"
    by (simp only: L flip: x_y)
  have "1 / y < 1 / 2 ^ nat (c - 1)"
    using y_gt' by (simp add: frac_less2)
  also have "\<dots> = (2::rat) powi (- c + 1)"
    using c_ge by (simp add: power_int_def field_simps)
  finally have "1 / y < 2 powi (- c + 1)" .
  then have "x < 2 powi (floor_log2 x + 1)"
    by (simp only: L flip: x_y)
  with one show ?thesis
    by (rule conjI)
qed

lemma floor_log2_bounds:
  assumes "0 < x"
  shows "2 powi floor_log2 x \<le> x" and "x < 2 powi (floor_log2 x + 1)"
  using assms floor_log2_ge1 [of x] floor_log2_lt1 [of x] by (cases "1 \<le> x"; simp)+

lemma floor_log2_less:
  assumes "0 < x" and "x < 2 powi n"
  shows "floor_log2 x < n"
proof (rule ccontr)
  assume "\<not> floor_log2 x < n"
  then have "n \<le> floor_log2 x"
    by simp
  then have "(2::rat) powi n \<le> 2 powi floor_log2 x"
    by (rule power_int_increasing) simp
  also have "\<dots> \<le> x"
    using assms(1) by (rule floor_log2_bounds)
  finally show False
    using assms(2) by simp
qed

lemma floor_log2_ge:
  assumes "0 < x" and "2 powi n \<le> x"
  shows "n \<le> floor_log2 x"
proof (rule ccontr)
  assume "\<not> n \<le> floor_log2 x"
  then have "floor_log2 x + 1 \<le> n"
    by simp
  then have "(2::rat) powi (floor_log2 x + 1) \<le> 2 powi n"
    by (rule power_int_increasing) simp
  moreover have "x < 2 powi (floor_log2 x + 1)"
    using assms(1) by (rule floor_log2_bounds)
  ultimately show False
    using assms(2) by simp
qed

lemma round_half_even_near: "\<bar>of_int (round_half_even x) - x\<bar> \<le> 1 / 2"
proof -
  define f where "f = \<lfloor>x\<rfloor>"
  have lo: "of_int f \<le> x" and hi: "x < of_int f + 1"
    unfolding f_def by linarith+
  have "round_half_even x = f \<and> x - of_int f \<le> 1 / 2
        \<or> round_half_even x = f + 1 \<and> 1 / 2 \<le> x - of_int f"
    unfolding round_half_even_def Let_def f_def[symmetric] by auto
  then show ?thesis
    using lo hi by (auto simp: abs_le_iff)
qed

lemma round_half_even_of_int: "round_half_even (of_int k) = k"
  by (simp add: round_half_even_def)

lemma round_half_even_abs_le:
  assumes "\<bar>x\<bar> \<le> of_int n"
  shows "\<bar>round_half_even x\<bar> \<le> n"
proof -
  define r where "r = round_half_even x"
  have "\<bar>of_int r - x\<bar> \<le> 1 / 2"
    unfolding r_def by (rule round_half_even_near)
  with assms have "(of_int r :: rat) \<le> of_int n + 1 / 2" and "- (of_int n :: rat) - 1 / 2 \<le> of_int r"
    by linarith+
  then have "(of_int r :: rat) < of_int (n + 1)" and "(of_int (- n - 1) :: rat) < of_int r"
    by simp_all
  then have "r < n + 1" and "- n - 1 < r"
    by (simp_all only: of_int_less_iff)
  then show ?thesis
    unfolding r_def by linarith
qed

lemma round_double_eq:
  "x \<noteq> 0 \<Longrightarrow> round_double x
     = of_int (round_half_even (x / 2 powi ulp_exponent x)) * 2 powi ulp_exponent x"
  by (simp add: round_double_def)

lemma pow2_pos: "0 < (2::rat) powi n"
  by (rule zero_less_power_int) simp

lemma mantissa_less:
  assumes "x \<noteq> 0"
  shows "\<bar>x / 2 powi ulp_exponent x\<bar> < 2 ^ 53"
proof -
  define e where "e = ulp_exponent x"
  have pos: "0 < \<bar>x\<bar>"
    using assms by simp
  have "floor_log2 \<bar>x\<bar> + 1 \<le> e + 53"
    unfolding e_def ulp_exponent_def by simp
  then have "(2::rat) powi (floor_log2 \<bar>x\<bar> + 1) \<le> 2 powi (e + 53)"
    by (rule power_int_increasing) simp
  moreover have "\<bar>x\<bar> < 2 powi (floor_log2 \<bar>x\<bar> + 1)"
    using pos by (rule floor_log2_bounds)
  ultimately have "\<bar>x\<bar> < 2 powi (e + 53)"
    by linarith
  also have "\<dots> = 2 powi e * 2 ^ 53"
    by (simp add: power_int_add)
  finally have "\<bar>x\<bar> / 2 powi e < 2 ^ 53"
    using pow2_pos [of e] by (simp add: divide_less_eq mult.commute)
  then show ?thesis
    using pow2_pos [of e] unfolding e_def by (simp add: abs_divide)
qed

lemma round_double_error:
  assumes "x \<noteq> 0"
  shows "\<bar>round_double x - x\<bar> \<le> 2 powi ulp_exponent x / 2"
proof -
  define e where "e = ulp_exponent x"
  define p :: rat where "p = 2 powi e"
  define k :: rat where "k = of_int (round_half_even (x / p))"
  have p_pos: "0 < p"
    unfolding p_def by (rule pow2_pos)
  have rd: "round_double x = k * p"
    using assms by (simp add: round_double_eq k_def p_def e_def)
  have near: "\<bar>k - x / p\<bar> \<le> 1 / 2"
    unfolding k_def by (rule round_half_even_near)
  have "k * p - x = (k - x / p) * p"
    using p_pos by (simp add: field_simps)
  then have "\<bar>k * p - x\<bar> = \<bar>k - x / p\<bar> * p"
    using p_pos by (simp add: abs_mult)
  also have "\<dots> \<le> 1 / 2 * p"
    using near p_pos by (simp only: mult_le_cancel_right_pos)
  finally show ?thesis
    unfolding rd p_def e_def by simp
qed

lemma round_double_rel_error:
  assumes "2 powi (- 1022) \<le> \<bar>x\<bar>"
  shows "\<bar>round_double x - x\<bar> \<le> \<bar>x\<bar> / 2 ^ 53"
proof -
  have pos: "0 < \<bar>x\<bar>"
    using assms pow2_pos [of "- 1022"] by linarith
  then have nz: "x \<noteq> 0"
    by simp
  define L where "L = floor_log2 \<bar>x\<bar>"
  have "- 1022 \<le> L"
    unfolding L_def using pos assms by (rule floor_log2_ge)
  then have e: "ulp_exponent x = L - 53 + 1"
    unfolding ulp_exponent_def L_def by simp
  have "(2::rat) powi (L - 53 + 1) / 2 = 2 powi (L - 53)"
    using power_int_add_1 [of "2::rat" "L - 53"] by simp
  also have "\<dots> = 2 powi L / 2 ^ 53"
    by (simp add: power_int_diff)
  also have "\<dots> \<le> \<bar>x\<bar> / 2 ^ 53"
    using floor_log2_bounds(1) [OF pos] unfolding L_def by (simp add: divide_right_mono)
  finally show ?thesis
    using round_double_error [OF nz] unfolding e by linarith
qed

lemma round_double_representable:
  assumes k: "\<bar>k\<bar> \<le> 2 ^ 53" and e: "- 1074 \<le> e"
  shows "round_double (of_int k * 2 powi e) = of_int k * 2 powi e"
proof (cases "k = 0")
  case True
  then show ?thesis
    by (simp add: round_double_def)
next
  case False
  define y :: rat where "y = of_int k * 2 powi e"
  define e' where "e' = ulp_exponent y"
  have nz: "y \<noteq> 0"
    using False pow2_pos [of e] by (simp add: y_def)
  have abs_y: "\<bar>y\<bar> = of_int \<bar>k\<bar> * 2 powi e"
    using pow2_pos [of e] by (simp add: y_def abs_mult)
  have pos: "0 < \<bar>y\<bar>"
    using nz by simp
  have "\<exists>j. y = of_int j * 2 powi e'"
  proof (cases "\<bar>k\<bar> = 2 ^ 53")
    case True
    have ay: "\<bar>y\<bar> = 2 powi (e + 53)"
      unfolding abs_y True by (simp add: power_int_add)
    have "e + 53 \<le> floor_log2 \<bar>y\<bar>"
      using pos by (rule floor_log2_ge) (simp add: ay)
    moreover have "floor_log2 \<bar>y\<bar> < e + 53 + 1"
      using pos by (rule floor_log2_less) (simp add: ay power_int_add)
    ultimately have "floor_log2 \<bar>y\<bar> = e + 53"
      by linarith
    then have e': "e' = e + 1"
      using e unfolding e'_def ulp_exponent_def by simp
    have "even k"
      using True by (metis abs_numeral dvd_abs_iff even_numeral even_power pos2 power_abs zero_less_numeral)
    then obtain j where j: "k = 2 * j"
      by (rule evenE)
    have "y = of_int j * 2 powi e'"
      unfolding y_def j e' by (simp add: power_int_add)
    then show ?thesis ..
  next
    case False
    with k have "\<bar>k\<bar> < 2 ^ 53"
      by linarith
    then have "(of_int \<bar>k\<bar> :: rat) < of_int (2 ^ 53)"
      by (simp only: of_int_less_iff)
    then have "\<bar>y\<bar> < 2 ^ 53 * 2 powi e"
      unfolding abs_y using pow2_pos [of e] by simp
    also have "\<dots> = 2 powi (e + 53)"
      by (simp add: power_int_add)
    finally have "floor_log2 \<bar>y\<bar> < e + 53"
      using pos by (intro floor_log2_less)
    then have le: "e' \<le> e"
      using e unfolding e'_def ulp_exponent_def by simp
    define d where "d = nat (e - e')"
    have "e = e' + int d"
      using le by (simp add: d_def)
    then have "(2::rat) powi e = 2 ^ d * 2 powi e'"
      by (simp add: power_int_add power_int_of_nat mult.commute)
    then have "y = of_int (k * 2 ^ d) * 2 powi e'"
      unfolding y_def by simp
    then show ?thesis ..
  qed
  then obtain j where j: "y = of_int j * 2 powi e'"
    ..
  have "y / 2 powi e' = of_int j"
    using pow2_pos [of e'] unfolding j by simp
  then have "round_double y = of_int j * 2 powi e'"
    using nz by (simp add: round_double_eq e'_def round_half_even_of_int)
  then show ?thesis
    unfolding j [symmetric] y_def .
qed

lemma round_double_idem: "round_double (round_double x) = round_double x"
proof (cases "x = 0")
  case True
  then show ?thesis
    by (simp add: round_double_def)
next
  case False
  have "\<bar>x / 2 powi ulp_exponent x\<bar> \<le> of_int (2 ^ 53)"
    using mantissa_less [OF False] by simp
  then have "\<bar>round_half_even (x / 2 powi ulp_exponent x)\<bar> \<le> 2 ^ 53"
    by (rule round_half_even_abs_le)
  moreover have "- 1074 \<le> ulp_exponent x"
    by (simp add: ulp_exponent_def)
  ultimately show ?thesis
    unfolding round_double_eq [OF False] by (rule round_double_representable)
qed

lemma floor_log2_zero: "floor_log2 0 = 0"
  by (simp add: floor_log2_def bitlen_eq_zero_iff)

lemma out_of_range_iff: "1024 \<le> floor_log2 \<bar>r\<bar> \<longleftrightarrow> 2 ^ 1024 \<le> \<bar>r\<bar>"
proof (cases "r = 0")
  case True
  then show ?thesis
    by (simp add: floor_log2_zero)
next
  case False
  then have pos: "0 < \<bar>r\<bar>"
    by simp
  have p: "(2::rat) powi 1024 = 2 ^ 1024"
    by (simp add: power_int_def)
  show ?thesis
  proof
    assume "1024 \<le> floor_log2 \<bar>r\<bar>"
    then have "(2::rat) powi 1024 \<le> 2 powi floor_log2 \<bar>r\<bar>"
      by (rule power_int_increasing) simp
    also have "\<dots> \<le> \<bar>r\<bar>"
      using pos by (rule floor_log2_bounds)
    finally show "2 ^ 1024 \<le> \<bar>r\<bar>"
      unfolding p .
  next
    assume "2 ^ 1024 \<le> \<bar>r\<bar>"
    then have "2 powi 1024 \<le> \<bar>r\<bar>"
      unfolding p .
    with pos show "1024 \<le> floor_log2 \<bar>r\<bar>"
      by (rule floor_log2_ge)
  qed
qed

lemma to_double_cases:
  "to_double x = PosInf \<or> to_double x = NegInf
   \<or> (to_double x = Finite (round_double x) \<and> \<not> 1024 \<le> floor_log2 \<bar>round_double x\<bar>)"
  unfolding to_double_def Let_def by simp

lemma to_double_finite:
  assumes "\<bar>round_double x\<bar> < 2 ^ 1024"
  shows "to_double x = Finite (round_double x)"
proof -
  have "\<not> 1024 \<le> floor_log2 \<bar>round_double x\<bar>"
    using assms unfolding out_of_range_iff by simp
  then show ?thesis
    unfolding to_double_def Let_def by simp
qed

lemma is_double_to_double: "is_double (to_double x)"
proof -
  consider "to_double x = PosInf" | "to_double x = NegInf"
    | "to_double x = Finite (round_double x)" "\<not> 1024 \<le> floor_log2 \<bar>round_double x\<bar>"
    using to_double_cases [of x] by blast
  then show ?thesis
  proof cases
    case 3
    have "to_double (round_double x) = Finite (round_double x)"
      unfolding to_double_def Let_def round_double_idem using 3(2) by simp
    then show ?thesis
      by (simp only: 3(1) is_double.simps)
  qed simp_all
qed

lemma is_double_float_add: "is_double (float_add x y)"
  by (cases x; cases y) (simp_all add: is_double_to_double)

lemma float_add_zero:
  assumes "is_double x"
  shows "float_add x (Finite 0) = x"
  using assms by (cases x) simp_all

lemma to_double_zero: "to_double 0 = Finite 0"
  by (simp add: to_double_def round_double_def floor_log2_zero)

lemma int_to_double_zero: "int_to_double 0 = Inr (Finite 0)"
  by (simp add: int_to_double_def finite_or_overflow_def to_double_zero)

lemma num_add_zero:
  assumes "is_number acc"
  shows "num_add acc (PyInt 0) = Inr acc"
  using assms by (cases acc) (simp_all add: int_to_double_zero float_add_zero)

lemma is_number_num_add:
  assumes "num_add acc x = Inr acc'"
  shows "is_number acc'"
  using assms
  by (cases acc; cases x) (auto simp: is_double_float_add split: sum.splits)

section \<open>Properties of the readiness score\<close>

lemma sum_from_insert_zero:
  assumes "is_number acc"
  shows "sum_from acc (vs @ Num (PyInt 0) # ws) = sum_from acc (vs @ ws)"
  using assms
proof (induction vs arbitrary: acc)
  case Nil
  then show ?case
    by (simp add: num_add_zero)
next
  case (Cons v vs)
  show ?case
  proof (cases "num_of v")
    case None
    then show ?thesis
      by simp
  next
    case (Some x)
    show ?thesis
    proof (cases "num_add acc x")
      case (Inl e)
      with Some show ?thesis
        by simp
    next
      case (Inr acc')
      then have "is_number acc'"
        by (rule is_number_num_add)
      then have "sum_from acc' (vs @ Num (PyInt 0) # ws) = sum_from acc' (vs @ ws)"
        by (rule Cons.IH)
      with Some Inr show ?thesis
        by simp
    qed
  qed
qed

lemma sum_from_ints:
  "sum_from (PyInt a) (map (\<lambda>i. Num (PyInt i)) scores) = Inr (PyInt (a + sum_list scores))"
  by (induction scores arbitrary: a) (simp_all add: add.assoc)

lemma mset_map_perm: "mset xs = mset ys \<Longrightarrow> mset (map f xs) = mset (map f ys)"
  by (simp only: mset_map)

lemma sum_list_perm:
  fixes xs ys :: "int list"
  assumes "mset xs = mset ys"
  shows "sum_list xs = sum_list ys"
proof -
  have "sum_mset (mset xs) = sum_mset (mset ys)"
    using assms by (rule arg_cong)
  then show ?thesis
    by (simp only: sum_mset_sum_list)
qed

lemma readiness_cong:
  assumes "length evaluations = length evaluations'"
    and "sum_from (PyInt 0) (map (\<lambda>eval_data. dict_get eval_data ''overall_score'' (Num (PyInt 0))) evaluations)
         = sum_from (PyInt 0) (map (\<lambda>eval_data. dict_get eval_data ''overall_score'' (Num (PyInt 0))) evaluations')"
  shows "calculate_interview_readiness_score evaluations
           = calculate_interview_readiness_score evaluations'"
proof -
  have emp: "evaluations = [] \<longleftrightarrow> evaluations' = []"
    using assms(1) by (metis length_0_conv)
  show ?thesis
    unfolding calculate_interview_readiness_score_def
    by (simp only: assms emp)
qed

lemma readiness_nonempty:
  assumes "evaluations \<noteq> []"
    and "sum_from (PyInt 0) (map (\<lambda>eval_data. dict_get eval_data ''overall_score'' (Num (PyInt 0))) evaluations)
           = Inr total_score"
    and "true_div total_score (int (length evaluations)) = Inr avg_score"
  shows "\<exists>r. calculate_interview_readiness_score evaluations = Inr r
           \<and> overall_score r = PyFloat (float_round1 avg_score)
           \<and> total_questions r = Some (length evaluations)
           \<and> readiness_level r =
               (if float_ge avg_score 90 then ''Excellent''
                else if float_ge avg_score 80 then ''Good''
                else if float_ge avg_score 70 then ''Satisfactory''
                else if float_ge avg_score 60 then ''Needs Improvement''
                else ''Requires Significant Work'')"
  unfolding calculate_interview_readiness_score_def Let_def
  by (simp only: assms if_False sum.case split: if_split) simp

lemma readiness_division_error:
  assumes "evaluations \<noteq> []"
    and "sum_from (PyInt 0) (map (\<lambda>eval_data. dict_get eval_data ''overall_score'' (Num (PyInt 0))) evaluations)
           = Inr total_score"
    and "true_div total_score (int (length evaluations)) = Inl e"
  shows "calculate_interview_readiness_score evaluations = Inl e"
  unfolding calculate_interview_readiness_score_def
  by (simp only: assms if_False sum.case)

lemma scores_of_evaluations:
  assumes "map (\<lambda>eval_data. eval_data ''overall_score'') evaluations
             = map (\<lambda>s. Some (Num (PyInt s))) scores"
  shows "map (\<lambda>eval_data. dict_get eval_data ''overall_score'' (Num (PyInt 0))) evaluations
           = map (\<lambda>s. Num (PyInt s)) scores"
proof -
  have "map (\<lambda>eval_data. dict_get eval_data ''overall_score'' (Num (PyInt 0))) evaluations
          = map (\<lambda>v. case v of None \<Rightarrow> Num (PyInt 0) | Some w \<Rightarrow> w)
              (map (\<lambda>eval_data. eval_data ''overall_score'') evaluations)"
    by (simp add: dict_get_def)
  also have "\<dots> = map (\<lambda>s. Num (PyInt s)) scores"
    unfolding assms by simp
  finally show ?thesis .
qed

subsection \<open>The average of integer scores\<close>

text \<open>
  For an integer total \<open>t\<close> of at most \<open>2 ^ 53 / 20\<close> and a number \<open>n\<close> of
  evaluations, the float \<open>t / n\<close> times \<open>n\<close> is less than one twentieth away
  from \<open>t\<close>. So the float is on the same side of an integer threshold as the exact
  quotient, and the tenth next to the float is a tenth next to the exact quotient.
\<close>

lemma int_quotient_close:
  fixes t n :: int
  assumes n: "0 < n" "n \<le> 2 ^ 1022" and t: "0 \<le> t" "20 * t < 2 ^ 53"
  shows "\<bar>round_double (of_int t / of_int n) * of_int n - of_int t\<bar> < 1 / 20"
proof (cases "t = 0")
  case True
  then show ?thesis
    by (simp add: round_double_def)
next
  case False
  define q :: rat where "q = of_int n"
  define T :: rat where "T = of_int t"
  define m where "m = T / q"
  define a where "a = round_double m"
  have q_pos: "0 < q"
    using n(1) by (simp add: q_def)
  have "1 \<le> t"
    using False t(1) by linarith
  then have T_ge: "1 \<le> T"
    unfolding T_def by simp
  have "(of_int (20 * t) :: rat) < of_int (2 ^ 53)"
    using t(2) by (simp only: of_int_less_iff)
  then have T_lt: "20 * T < 2 ^ 53"
    by (simp add: T_def)
  have "(of_int n :: rat) \<le> of_int (2 ^ 1022)"
    using n(2) by (simp only: of_int_le_iff)
  then have q_le: "q \<le> 2 ^ 1022"
    by (simp add: q_def)
  have m_pos: "0 < m"
    using T_ge q_pos by (simp add: m_def)
  have "(2::rat) powi (- 1022) = 1 / 2 ^ 1022"
    by (simp add: power_int_minus_divide)
  also have "\<dots> \<le> 1 / q"
    using q_le q_pos by (simp add: frac_le)
  also have "\<dots> \<le> T / q"
    using T_ge q_pos by (simp add: divide_right_mono)
  finally have "2 powi (- 1022) \<le> m"
    unfolding m_def .
  moreover have "\<bar>m\<bar> = m"
    using m_pos by simp
  ultimately have "2 powi (- 1022) \<le> \<bar>m\<bar>"
    by (simp only:)
  then have "\<bar>a - m\<bar> \<le> \<bar>m\<bar> / 2 ^ 53"
    unfolding a_def by (rule round_double_rel_error)
  then have err: "\<bar>a - m\<bar> \<le> m / 2 ^ 53"
    using m_pos by simp
  have mq: "m * q = T"
    using q_pos by (simp add: m_def)
  have "a * q - T = (a - m) * q"
    by (simp add: mq left_diff_distrib)
  then have "\<bar>a * q - T\<bar> = \<bar>a - m\<bar> * q"
    using q_pos by (simp add: abs_mult)
  also have "\<dots> \<le> m / 2 ^ 53 * q"
    using err q_pos by (simp only: mult_le_cancel_right_pos)
  also have "\<dots> = T / 2 ^ 53"
    using mq by simp
  also have "\<dots> < 1 / 20"
    using T_lt by simp
  finally show ?thesis
    unfolding a_def m_def T_def q_def .
qed

lemma int_quotient_threshold:
  fixes t n c :: int
  assumes n: "0 < n" "n \<le> 2 ^ 1022" and t: "0 \<le> t" "20 * t < 2 ^ 53"
    and c: "round_double (of_int c) = of_int c"
  shows "of_int c \<le> round_double (of_int t / of_int n) \<longleftrightarrow> c * n \<le> t"
proof -
  define q :: rat where "q = of_int n"
  define T :: rat where "T = of_int t"
  define C :: rat where "C = of_int c"
  define a where "a = round_double (T / q)"
  have q_pos: "0 < q"
    using n(1) by (simp add: q_def)
  have close: "\<bar>a * q - T\<bar> < 1 / 20"
    unfolding a_def T_def q_def using assms(1-4) by (rule int_quotient_close)
  have iff: "C \<le> a \<longleftrightarrow> C * q \<le> a * q"
    using q_pos by simp
  show ?thesis
  proof (cases "c * n \<le> t")
    case True
    have "C \<le> a"
    proof (cases "c * n = t")
      case True
      then have "T = of_int (c * n)"
        by (simp add: T_def)
      then have "T / q = C"
        using q_pos by (simp add: q_def C_def)
      then show ?thesis
        unfolding a_def using c by (simp add: C_def)
    next
      case False
      with True have "c * n + 1 \<le> t"
        by linarith
      then have "(of_int (c * n + 1) :: rat) \<le> of_int t"
        by (simp only: of_int_le_iff)
      then have "C * q + 1 \<le> T"
        by (simp add: C_def q_def T_def)
      with close have "C * q \<le> a * q"
        by linarith
      then show ?thesis
        using iff by simp
    qed
    with True show ?thesis
      unfolding a_def C_def T_def q_def by simp
  next
    case False
    then have "t + 1 \<le> c * n"
      by linarith
    then have "(of_int (t + 1) :: rat) \<le> of_int (c * n)"
      by (simp only: of_int_le_iff)
    then have "T + 1 \<le> C * q"
      by (simp add: C_def q_def T_def)
    with close have "a * q < C * q"
      by linarith
    then have "\<not> C \<le> a"
      using iff by simp
    with False show ?thesis
      unfolding a_def C_def T_def q_def by simp
  qed
qed

lemma int_quotient_tenth:
  fixes t n :: int
  assumes n: "0 < n" "n \<le> 2 ^ 1022" and t: "0 \<le> t" "20 * t < 2 ^ 53"
  shows "\<bar>py_round1 (round_double (of_int t / of_int n)) - of_int t / of_int n\<bar> \<le> 1 / 20"
proof -
  define q :: rat where "q = of_int n"
  define T :: rat where "T = of_int t"
  define a where "a = round_double (T / q)"
  define k where "k = round_half_even (a * 10)"
  define K :: rat where "K = of_int k"
  have q_pos: "0 < q"
    using n(1) by (simp add: q_def)
  have close: "\<bar>a * q - T\<bar> < 1 / 20"
    unfolding a_def T_def q_def using assms by (rule int_quotient_close)
  have "\<bar>K - a * 10\<bar> \<le> 1 / 2"
    unfolding K_def k_def by (rule round_half_even_near)
  then have "\<bar>K - a * 10\<bar> * q \<le> 1 / 2 * q"
    using q_pos by (simp only: mult_le_cancel_right_pos)
  moreover have "\<bar>K - a * 10\<bar> * q = \<bar>(K - a * 10) * q\<bar>"
    using q_pos by (simp add: abs_mult)
  moreover have "(K - a * 10) * q = K * q - a * q * 10"
    by (simp add: algebra_simps)
  ultimately have near: "\<bar>K * q - a * q * 10\<bar> \<le> q / 2"
    by simp
  define I where "I = 2 * k * n - 20 * t"
  have I: "of_int I = 2 * (K * q) - 20 * T"
    by (simp add: I_def K_def q_def T_def)
  have "\<bar>2 * (K * q) - 20 * T\<bar> < q + 1"
    using near close by linarith
  then have "\<bar>(of_int I :: rat)\<bar> < of_int (n + 1)"
    by (simp add: I q_def)
  then have "(of_int \<bar>I\<bar> :: rat) < of_int (n + 1)"
    by simp
  then have "\<bar>I\<bar> < n + 1"
    by (simp only: of_int_less_iff)
  then have "\<bar>I\<bar> \<le> n"
    by linarith
  then have "(of_int \<bar>I\<bar> :: rat) \<le> of_int n"
    by (simp only: of_int_le_iff)
  then have bound: "\<bar>2 * (K * q) - 20 * T\<bar> \<le> q"
    by (simp add: I q_def)
  have "K / 10 - T / q = (2 * (K * q) - 20 * T) / (20 * q)"
    using q_pos by (simp add: field_simps)
  then have "\<bar>K / 10 - T / q\<bar> = \<bar>2 * (K * q) - 20 * T\<bar> / (20 * q)"
    using q_pos by (simp add: abs_divide)
  also have "\<dots> \<le> q / (20 * q)"
    using bound q_pos by (intro divide_right_mono) simp_all
  also have "\<dots> = 1 / 20"
    using q_pos by simp
  finally show ?thesis
    unfolding py_round1_def K_def k_def a_def T_def q_def .
qed

lemma int_quotient_finite:
  fixes t n :: int
  assumes n: "0 < n" "n \<le> 2 ^ 1022" and t: "0 \<le> t" "20 * t < 2 ^ 53"
  shows "to_double (of_int t / of_int n) = Finite (round_double (of_int t / of_int n))"
proof (rule to_double_finite)
  define q :: rat where "q = of_int n"
  define T :: rat where "T = of_int t"
  define a where "a = round_double (T / q)"
  have "1 \<le> n"
    using n(1) by linarith
  then have q_ge: "1 \<le> q"
    unfolding q_def by simp
  have close: "\<bar>a * q - T\<bar> < 1 / 20"
    unfolding a_def T_def q_def using assms by (rule int_quotient_close)
  have "(of_int (20 * t) :: rat) < of_int (2 ^ 53)"
    using t(2) by (simp only: of_int_less_iff)
  then have T_lt: "20 * T < 2 ^ 53"
    by (simp add: T_def)
  have T_ge: "0 \<le> T"
    using t(1) by (simp add: T_def)
  have "\<bar>a\<bar> * 1 \<le> \<bar>a\<bar> * q"
    using q_ge by (intro mult_left_mono) simp_all
  also have "\<dots> = \<bar>a * q\<bar>"
    using q_ge by (simp add: abs_mult)
  also have "\<dots> < T + 1"
    using close T_ge by linarith
  also have "\<dots> < 2 ^ 53"
    using T_lt T_ge by simp
  also have "\<dots> < (2::rat) ^ 1024"
    by simp
  finally show "\<bar>round_double (of_int t / of_int n)\<bar> < 2 ^ 1024"
    unfolding a_def T_def q_def by simp
qed

lemma sum_list_bounds:
  fixes scores :: "int list"
  assumes "\<forall>s\<in>set scores. 0 \<le> s \<and> s \<le> 100"
  shows "0 \<le> sum_list scores \<and> sum_list scores \<le> 100 * int (length scores)"
  using assms by (induction scores) auto

lemma mean_of_ints:
  "mean (map of_int scores) = of_int (sum_list scores) / of_int (int (length scores))"
proof -
  have "sum_list (map of_int scores) = (of_int (sum_list scores) :: rat)"
    by (induction scores) simp_all
  then show ?thesis
    by (simp add: mean_def)
qed

lemma exact_thresholds:
  "round_double (of_int 90) = of_int 90" "round_double (of_int 80) = of_int 80"
  "round_double (of_int 70) = of_int 70" "round_double (of_int 60) = of_int 60"
  using round_double_representable [of 90 0] round_double_representable [of 80 0]
    round_double_representable [of 70 0] round_double_representable [of 60 0]
  by simp_all

text \<open>
  C3. For every list of evaluations that is not empty, has fewer than \<open>2 ^ 40\<close>
  entries and carries integer scores between 0 and 100, the readiness score is
  computed without an error; its \<open>overall_score\<close> is the float written with one
  decimal \<open>k / 10\<close>, for a tenth \<open>k / 10\<close> at most one twentieth away from the
  mean of the scores (a nearest tenth; when the mean is half way between two
  tenths, one of the two); and its level is Excellent for a mean of at least 90,
  Good from 80, Satisfactory from 70, Needs Improvement from 60, and Requires
  Significant Work below. For the scores 50, 60, 70 the score is 60.0 and the level
  Needs Improvement.
\<close>

theorem readiness_integer_scores:
  fixes scores :: "int list"
  assumes "scores \<noteq> []" and "length scores < 2 ^ 40"
    and "\<forall>s\<in>set scores. 0 \<le> s \<and> s \<le> 100"
    and "map (\<lambda>eval_data. eval_data ''overall_score'') evaluations
           = map (\<lambda>s. Some (Num (PyInt s))) scores"
  shows "\<exists>r k. calculate_interview_readiness_score evaluations = Inr r
           \<and> overall_score r = PyFloat (to_double (of_int k / 10))
           \<and> \<bar>of_int k / 10 - mean (map of_int scores)\<bar> \<le> 1 / 20
           \<and> total_questions r = Some (length scores)
           \<and> readiness_level r =
               (if 90 \<le> mean (map of_int scores) then ''Excellent''
                else if 80 \<le> mean (map of_int scores) then ''Good''
                else if 70 \<le> mean (map of_int scores) then ''Satisfactory''
                else if 60 \<le> mean (map of_int scores) then ''Needs Improvement''
                else ''Requires Significant Work'')"
proof -
  define n where "n = int (length scores)"
  define t where "t = sum_list scores"
  define M :: rat where "M = of_int t / of_int n"
  define a where "a = round_double M"
  define k where "k = round_half_even (a * 10)"
  have len: "length evaluations = length scores"
    using assms(4) by (metis length_map)
  then have ne: "evaluations \<noteq> []"
    using assms(1) by auto
  have n_pos: "0 < n"
    using assms(1) by (simp add: n_def)
  have n_lt: "n < 2 ^ 40"
    using assms(2) unfolding n_def by (metis of_nat_less_iff of_nat_numeral of_nat_power)
  then have n_le: "n \<le> 2 ^ 1022"
    by simp
  have t_bounds: "0 \<le> t" "t \<le> 100 * n"
    using sum_list_bounds [OF assms(3)] by (simp_all add: t_def n_def)
  then have t_lt: "20 * t < 2 ^ 53"
    using n_lt by simp
  have mean: "mean (map of_int scores) = M"
    unfolding M_def t_def n_def by (rule mean_of_ints)
  have total: "sum_from (PyInt 0)
                 (map (\<lambda>eval_data. dict_get eval_data ''overall_score'' (Num (PyInt 0))) evaluations)
                 = Inr (PyInt t)"
    by (simp add: scores_of_evaluations [OF assms(4)] sum_from_ints t_def)
  have "to_double M = Finite a"
    unfolding M_def a_def using n_pos n_le t_bounds(1) t_lt by (rule int_quotient_finite)
  then have avg: "true_div (PyInt t) (int (length evaluations)) = Inr (Finite a)"
    using n_pos by (simp add: len n_def [symmetric] M_def [symmetric] finite_or_overflow_def)
  have M_ge: "of_int c \<le> M \<longleftrightarrow> c * n \<le> t" for c
  proof -
    have "of_int c \<le> M \<longleftrightarrow> (of_int c :: rat) * of_int n \<le> of_int t"
      using n_pos by (simp add: M_def le_divide_eq)
    also have "\<dots> \<longleftrightarrow> (of_int (c * n) :: rat) \<le> of_int t"
      by simp
    also have "\<dots> \<longleftrightarrow> c * n \<le> t"
      by (simp only: of_int_le_iff)
    finally show ?thesis .
  qed
  have th: "float_ge (Finite a) c \<longleftrightarrow> of_int c \<le> M"
    if "round_double (of_int c) = of_int c" for c
    using int_quotient_threshold [OF n_pos n_le t_bounds(1) t_lt that] M_ge [of c]
    by (simp add: a_def M_def)
  have th90: "float_ge (Finite a) 90 \<longleftrightarrow> 90 \<le> M"
    using th [OF exact_thresholds(1)] by simp
  have th80: "float_ge (Finite a) 80 \<longleftrightarrow> 80 \<le> M"
    using th [OF exact_thresholds(2)] by simp
  have th70: "float_ge (Finite a) 70 \<longleftrightarrow> 70 \<le> M"
    using th [OF exact_thresholds(3)] by simp
  have th60: "float_ge (Finite a) 60 \<longleftrightarrow> 60 \<le> M"
    using th [OF exact_thresholds(4)] by simp
  have tenth: "\<bar>of_int k / 10 - M\<bar> \<le> 1 / 20"
    using int_quotient_tenth [OF n_pos n_le t_bounds(1) t_lt]
    by (simp only: py_round1_def k_def a_def M_def)
  have round: "float_round1 (Finite a) = to_double (of_int k / 10)"
    by (simp add: py_round1_def k_def)
  from readiness_nonempty [OF ne total avg] obtain r where
    r: "calculate_interview_readiness_score evaluations = Inr r"
       "overall_score r = PyFloat (float_round1 (Finite a))"
       "total_questions r = Some (length evaluations)"
       "readiness_level r =
               (if float_ge (Finite a) 90 then ''Excellent''
                else if float_ge (Finite a) 80 then ''Good''
                else if float_ge (Finite a) 70 then ''Satisfactory''
                else if float_ge (Finite a) 60 then ''Needs Improvement''
                else ''Requires Significant Work'')"
    by blast
  have "overall_score r = PyFloat (to_double (of_int k / 10))"
    by (simp only: r(2) round)
  moreover have "total_questions r = Some (length scores)"
    by (simp only: r(3) len)
  moreover have "readiness_level r =
               (if 90 \<le> mean (map of_int scores) then ''Excellent''
                else if 80 \<le> mean (map of_int scores) then ''Good''
                else if 70 \<le> mean (map of_int scores) then ''Satisfactory''
                else if 60 \<le> mean (map of_int scores) then ''Needs Improvement''
                else ''Requires Significant Work'')"
    by (simp only: r(4) th90 th80 th70 th60 mean)
  moreover have "\<bar>of_int k / 10 - mean (map of_int scores)\<bar> \<le> 1 / 20"
    by (simp only: mean tenth)
  ultimately show ?thesis
    using r(1) by blast
qed

lemma to_double_60: "to_double 60 = Finite 60"
  by code_simp

theorem readiness_integer_scores_witness:
  "[50, 60, 70 :: int] \<noteq> [] \<and> length [50, 60, 70 :: int] < 2 ^ 40
   \<and> list_all (\<lambda>s. 0 \<le> s \<and> s \<le> 100) [50, 60, 70 :: int]
   \<and> mean (map of_int [50, 60, 70 :: int]) = 60
   \<and> (\<exists>r. calculate_interview_readiness_score
              [[''overall_score'' \<mapsto> Num (PyInt 50)], [''overall_score'' \<mapsto> Num (PyInt 60)],
               [''overall_score'' \<mapsto> Num (PyInt 70)]] = Inr r
            \<and> overall_score r = PyFloat (Finite 60)
            \<and> readiness_level r = ''Needs Improvement'')"
proof -
  have ne: "[50, 60, 70 :: int] \<noteq> []"
    by simp
  have le: "length [50, 60, 70 :: int] < 2 ^ 40"
    by simp
  have rg: "\<forall>s\<in>set [50, 60, 70 :: int]. 0 \<le> s \<and> s \<le> 100"
    by simp
  have sc: "map (\<lambda>eval_data. eval_data ''overall_score'')
        [[''overall_score'' \<mapsto> Num (PyInt 50)], [''overall_score'' \<mapsto> Num (PyInt 60)],
         [''overall_score'' \<mapsto> Num (PyInt 70)]]
       = map (\<lambda>s. Some (Num (PyInt s))) [50, 60, 70]"
    by simp
  have m: "mean (map of_int [50, 60, 70 :: int]) = 60"
    by (simp add: mean_def)
  from readiness_integer_scores [OF ne le rg sc] obtain r k where
    r: "calculate_interview_readiness_score
              [[''overall_score'' \<mapsto> Num (PyInt 50)], [''overall_score'' \<mapsto> Num (PyInt 60)],
               [''overall_score'' \<mapsto> Num (PyInt 70)]] = Inr r"
       "overall_score r = PyFloat (to_double (of_int k / 10))"
       "\<bar>of_int k / 10 - mean (map of_int [50, 60, 70 :: int])\<bar> \<le> 1 / 20"
       "readiness_level r =
               (if 90 \<le> mean (map of_int [50, 60, 70 :: int]) then ''Excellent''
                else if 80 \<le> mean (map of_int [50, 60, 70 :: int]) then ''Good''
                else if 70 \<le> mean (map of_int [50, 60, 70 :: int]) then ''Satisfactory''
                else if 60 \<le> mean (map of_int [50, 60, 70 :: int]) then ''Needs Improvement''
                else ''Requires Significant Work'')"
    by blast
  define K :: rat where "K = of_int k"
  have "\<bar>K / 10 - 60\<bar> \<le> 1 / 20"
    using r(3) unfolding K_def by (simp only: m)
  then have "599 < K" and "K < 601"
    by linarith+
  then have "599 < k" and "k < 601"
    unfolding K_def by simp_all
  then have k: "k = 600"
    by linarith
  have "overall_score r = PyFloat (Finite 60)"
    using r(2) by (simp add: k to_double_60)
  moreover have "readiness_level r = ''Needs Improvement''"
    using r(4) by (simp only: m) simp
  ultimately have "\<exists>r. calculate_interview_readiness_score
              [[''overall_score'' \<mapsto> Num (PyInt 50)], [''overall_score'' \<mapsto> Num (PyInt 60)],
               [''overall_score'' \<mapsto> Num (PyInt 70)]] = Inr r
            \<and> overall_score r = PyFloat (Finite 60)
            \<and> readiness_level r = ''Needs Improvement''"
    using r(1) by blast
  moreover have "list_all (\<lambda>s. 0 \<le> s \<and> s \<le> 100) [50, 60, 70 :: int]"
    by simp
  ultimately show ?thesis
    using ne le m by blast
qed

text \<open>
  The mean at a tie, and a level below the mean. Nineteen scores of 70 and one of
  77 have the mean 70.35, half way between 70.3 and 70.4, which rounded to one
  decimal is 70.4 (to the even digit, and also away from zero). The quotient
  \<open>1407 / 20\<close> is the double next to 70.35, which is below it, and \<open>round\<close>
  gives 70.3. The float scores 72.9, 79.3, 47.7 and 40.1 have a mean of at least 60,
  also as the doubles they are; their sum is rounded to 239.99999999999997, the
  average is below 60, and the level is Requires Significant Work with a score of
  60.0.
\<close>

theorem readiness_differs_from_mean:
  "calculate_interview_readiness_score
     (replicate 19 [''overall_score'' \<mapsto> Num (PyInt 70)] @ [[''overall_score'' \<mapsto> Num (PyInt 77)]])
     = Inr \<lparr>overall_score = PyFloat (to_double (703 / 10)), readiness_level = ''Satisfactory'',
            recommendations = [''Good start. Focus on technical depth and examples''],
            total_questions = Some 20\<rparr>
   \<and> mean (map of_int (replicate 19 70 @ [77 :: int])) = 7035 / 100
   \<and> py_round1 (7035 / 100) = 704 / 10
   \<and> to_double (703 / 10) \<noteq> to_double (704 / 10)
   \<and> calculate_interview_readiness_score
        [[''overall_score'' \<mapsto> Num (PyFloat (to_double (729 / 10)))],
         [''overall_score'' \<mapsto> Num (PyFloat (to_double (793 / 10)))],
         [''overall_score'' \<mapsto> Num (PyFloat (to_double (477 / 10)))],
         [''overall_score'' \<mapsto> Num (PyFloat (to_double (401 / 10)))]]
     = Inr \<lparr>overall_score = PyFloat (to_double 60),
            readiness_level = ''Requires Significant Work'',
            recommendations = [''Intensive practice needed. Consider mock interviews''],
            total_questions = Some 4\<rparr>
   \<and> 60 \<le> mean [round_double (729 / 10), round_double (793 / 10),
                   round_double (477 / 10), round_double (401 / 10)]
   \<and> 60 \<le> mean [729 / 10, 793 / 10, 477 / 10, 401 / 10]"
proof -
  have "calculate_interview_readiness_score
     (replicate 19 [''overall_score'' \<mapsto> Num (PyInt 70)] @ [[''overall_score'' \<mapsto> Num (PyInt 77)]])
     = Inr \<lparr>overall_score = PyFloat (to_double (703 / 10)), readiness_level = ''Satisfactory'',
            recommendations = [''Good start. Focus on technical depth and examples''],
            total_questions = Some 20\<rparr>"
    by code_simp
  moreover have "mean (map of_int (replicate 19 70 @ [77 :: int])) = 7035 / 100"
    by code_simp
  moreover have "py_round1 (7035 / 100) = 704 / 10"
    by code_simp
  moreover have "to_double (703 / 10) \<noteq> to_double (704 / 10)"
    by code_simp
  moreover have "calculate_interview_readiness_score
        [[''overall_score'' \<mapsto> Num (PyFloat (to_double (729 / 10)))],
         [''overall_score'' \<mapsto> Num (PyFloat (to_double (793 / 10)))],
         [''overall_score'' \<mapsto> Num (PyFloat (to_double (477 / 10)))],
         [''overall_score'' \<mapsto> Num (PyFloat (to_double (401 / 10)))]]
     = Inr \<lparr>overall_score = PyFloat (to_double 60),
            readiness_level = ''Requires Significant Work'',
            recommendations = [''Intensive practice needed. Consider mock interviews''],
            total_questions = Some 4\<rparr>"
    by code_simp
  moreover have "60 \<le> mean [round_double (729 / 10), round_double (793 / 10),
                   round_double (477 / 10), round_double (401 / 10)]"
    by code_simp
  moreover have "60 \<le> mean [729 / 10, 793 / 10, 477 / 10, 401 / 10]"
    by code_simp
  ultimately show ?thesis
    by blast
qed

text \<open>
  C4. For the empty list of evaluations the result has \<open>overall_score\<close> 0, the
  level Not Started and the one recommendation "Start practicing interview
  questions"; it has no \<open>total_questions\<close> entry at all, where the claim expects
  a question count of 0 (the branch for a list that is not empty does return
  \<open>total_questions\<close>).
\<close>

theorem readiness_empty:
  "calculate_interview_readiness_score [] =
     Inr \<lparr>overall_score = PyInt 0, readiness_level = ''Not Started'',
          recommendations = [''Start practicing interview questions''],
          total_questions = None\<rparr>"
  by (simp add: calculate_interview_readiness_score_def)

lemma int_scores_of_evaluations:
  assumes "\<forall>eval_data\<in>set evaluations.
             eval_data ''overall_score'' = None
             \<or> (\<exists>i. eval_data ''overall_score'' = Some (Num (PyInt i)))"
  shows "\<exists>scores. map (\<lambda>eval_data. dict_get eval_data ''overall_score'' (Num (PyInt 0))) evaluations
                    = map (\<lambda>i. Num (PyInt i)) scores"
  using assms
proof (induction evaluations)
  case Nil
  then show ?case
    by simp
next
  case (Cons eval_data evaluations)
  then obtain scores where
    scores: "map (\<lambda>eval_data. dict_get eval_data ''overall_score'' (Num (PyInt 0))) evaluations
               = map (\<lambda>i. Num (PyInt i)) scores"
    by auto
  from Cons.prems obtain i where
    i: "dict_get eval_data ''overall_score'' (Num (PyInt 0)) = Num (PyInt i)"
    by (auto simp: dict_get_def)
  have "map (\<lambda>eval_data. dict_get eval_data ''overall_score'' (Num (PyInt 0))) (eval_data # evaluations)
          = map (\<lambda>i. Num (PyInt i)) (i # scores)"
    by (simp only: list.map i scores)
  then show ?case ..
qed

lemma sum_from_ints_perm:
  assumes "mset (map (\<lambda>i. Num (PyInt i)) xs) = mset (map (\<lambda>i. Num (PyInt i)) ys)"
  shows "sum_from (PyInt 0) (map (\<lambda>i. Num (PyInt i)) xs)
           = sum_from (PyInt 0) (map (\<lambda>i. Num (PyInt i)) ys)"
proof -
  let ?f = "\<lambda>v. case v of Num (PyInt i) \<Rightarrow> i | _ \<Rightarrow> 0"
  have unmap: "map ?f (map (\<lambda>i. Num (PyInt i)) zs) = zs" for zs
    by (induction zs) simp_all
  have "mset (map ?f (map (\<lambda>i. Num (PyInt i)) xs)) = mset (map ?f (map (\<lambda>i. Num (PyInt i)) ys))"
    using assms by (rule mset_map_perm)
  then have "mset xs = mset ys"
    by (simp only: unmap)
  then have "sum_list xs = sum_list ys"
    by (rule sum_list_perm)
  then show ?thesis
    by (simp only: sum_from_ints)
qed

text \<open>
  C8. When every evaluation carries an integer score or none at all, the readiness
  score does not depend on the order of the evaluations: two lists with the same
  evaluations, each as often in one as in the other, give the same result (the
  same score, level, recommendations and number of questions, or the same error).
\<close>

theorem readiness_permutation_integer_scores:
  assumes "mset evaluations = mset evaluations'"
    and "\<forall>eval_data\<in>set evaluations.
           eval_data ''overall_score'' = None
           \<or> (\<exists>i. eval_data ''overall_score'' = Some (Num (PyInt i)))"
  shows "calculate_interview_readiness_score evaluations
           = calculate_interview_readiness_score evaluations'"
proof (rule readiness_cong)
  let ?g = "\<lambda>eval_data. dict_get eval_data ''overall_score'' (Num (PyInt 0))"
  show "length evaluations = length evaluations'"
    using assms(1) by (rule mset_eq_length)
  have "set evaluations = set evaluations'"
    using assms(1) by (rule mset_eq_setD)
  with assms(2) have ints': "\<forall>eval_data\<in>set evaluations'.
           eval_data ''overall_score'' = None
           \<or> (\<exists>i. eval_data ''overall_score'' = Some (Num (PyInt i)))"
    by (simp only:)
  from int_scores_of_evaluations [OF assms(2)] obtain xs where
    xs: "map ?g evaluations = map (\<lambda>i. Num (PyInt i)) xs"
    ..
  from int_scores_of_evaluations [OF ints'] obtain ys where
    ys: "map ?g evaluations' = map (\<lambda>i. Num (PyInt i)) ys"
    ..
  have "mset (map ?g evaluations) = mset (map ?g evaluations')"
    using assms(1) by (rule mset_map_perm)
  then have "mset (map (\<lambda>i. Num (PyInt i)) xs) = mset (map (\<lambda>i. Num (PyInt i)) ys)"
    by (simp only: xs ys)
  then have "sum_from (PyInt 0) (map (\<lambda>i. Num (PyInt i)) xs)
               = sum_from (PyInt 0) (map (\<lambda>i. Num (PyInt i)) ys)"
    by (rule sum_from_ints_perm)
  then show "sum_from (PyInt 0) (map ?g evaluations) = sum_from (PyInt 0) (map ?g evaluations')"
    by (simp only: xs ys)
qed

theorem readiness_permutation_integer_scores_witness:
  "mset [[''overall_score'' \<mapsto> Num (PyInt 85)], [''overall_score'' \<mapsto> Num (PyInt 55)],
         [''rating'' \<mapsto> Str ''good'']]
     = mset [[''rating'' \<mapsto> Str ''good''], [''overall_score'' \<mapsto> Num (PyInt 85)],
             [''overall_score'' \<mapsto> Num (PyInt 55)]]
   \<and> calculate_interview_readiness_score
        [[''overall_score'' \<mapsto> Num (PyInt 85)], [''overall_score'' \<mapsto> Num (PyInt 55)],
         [''rating'' \<mapsto> Str ''good'']]
     = calculate_interview_readiness_score
        [[''rating'' \<mapsto> Str ''good''], [''overall_score'' \<mapsto> Num (PyInt 85)],
         [''overall_score'' \<mapsto> Num (PyInt 55)]]"
proof -
  have p: "mset [[''overall_score'' \<mapsto> Num (PyInt 85)], [''overall_score'' \<mapsto> Num (PyInt 55)],
         [''rating'' \<mapsto> Str ''good'']]
     = mset [[''rating'' \<mapsto> Str ''good''], [''overall_score'' \<mapsto> Num (PyInt 85)],
             [''overall_score'' \<mapsto> Num (PyInt 55)]]"
    by (simp add: add_mset_commute)
  have i: "\<forall>eval_data\<in>set [[''overall_score'' \<mapsto> Num (PyInt 85)],
                                [''overall_score'' \<mapsto> Num (PyInt 55)],
                                [''rating'' \<mapsto> Str ''good'']].
             eval_data ''overall_score'' = None
             \<or> (\<exists>i. eval_data ''overall_score'' = Some (Num (PyInt i)))"
    by simp
  show ?thesis
    using p readiness_permutation_integer_scores [OF p i] by (rule conjI)
qed

text \<open>
  The order of float scores. The scores 25.6, 57, 21 and 50.2 are summed to 153.8
  in this order and to 153.79999999999998 when 25.6 comes last: the averages are
  the doubles 38.45 and 38.449999999999996, whose nearest tenths are 38.5 and 38.4.
\<close>

theorem readiness_depends_on_order:
  "mset [[''overall_score'' \<mapsto> Num (PyFloat (to_double (256 / 10)))],
         [''overall_score'' \<mapsto> Num (PyInt 57)], [''overall_score'' \<mapsto> Num (PyInt 21)],
         [''overall_score'' \<mapsto> Num (PyFloat (to_double (502 / 10)))]]
     = mset [[''overall_score'' \<mapsto> Num (PyInt 57)], [''overall_score'' \<mapsto> Num (PyInt 21)],
             [''overall_score'' \<mapsto> Num (PyFloat (to_double (502 / 10)))],
             [''overall_score'' \<mapsto> Num (PyFloat (to_double (256 / 10)))]]
   \<and> calculate_interview_readiness_score
        [[''overall_score'' \<mapsto> Num (PyFloat (to_double (256 / 10)))],
         [''overall_score'' \<mapsto> Num (PyInt 57)], [''overall_score'' \<mapsto> Num (PyInt 21)],
         [''overall_score'' \<mapsto> Num (PyFloat (to_double (502 / 10)))]]
     = Inr \<lparr>overall_score = PyFloat (to_double (385 / 10)),
            readiness_level = ''Requires Significant Work'',
            recommendations = [''Intensive practice needed. Consider mock interviews''],
            total_questions = Some 4\<rparr>
   \<and> calculate_interview_readiness_score
        [[''overall_score'' \<mapsto> Num (PyInt 57)], [''overall_score'' \<mapsto> Num (PyInt 21)],
         [''overall_score'' \<mapsto> Num (PyFloat (to_double (502 / 10)))],
         [''overall_score'' \<mapsto> Num (PyFloat (to_double (256 / 10)))]]
     = Inr \<lparr>overall_score = PyFloat (to_double (384 / 10)),
            readiness_level = ''Requires Significant Work'',
            recommendations = [''Intensive practice needed. Consider mock interviews''],
            total_questions = Some 4\<rparr>
   \<and> to_double (385 / 10) \<noteq> to_double (384 / 10)"
proof -
  have "mset [[''overall_score'' \<mapsto> Num (PyFloat (to_double (256 / 10)))],
         [''overall_score'' \<mapsto> Num (PyInt 57)], [''overall_score'' \<mapsto> Num (PyInt 21)],
         [''overall_score'' \<mapsto> Num (PyFloat (to_double (502 / 10)))]]
     = mset [[''overall_score'' \<mapsto> Num (PyInt 57)], [''overall_score'' \<mapsto> Num (PyInt 21)],
             [''overall_score'' \<mapsto> Num (PyFloat (to_double (502 / 10)))],
             [''overall_score'' \<mapsto> Num (PyFloat (to_double (256 / 10)))]]"
    by (simp add: add_mset_commute)
  moreover have "calculate_interview_readiness_score
        [[''overall_score'' \<mapsto> Num (PyFloat (to_double (256 / 10)))],
         [''overall_score'' \<mapsto> Num (PyInt 57)], [''overall_score'' \<mapsto> Num (PyInt 21)],
         [''overall_score'' \<mapsto> Num (PyFloat (to_double (502 / 10)))]]
     = Inr \<lparr>overall_score = PyFloat (to_double (385 / 10)),
            readiness_level = ''Requires Significant Work'',
            recommendations = [''Intensive practice needed. Consider mock interviews''],
            total_questions = Some 4\<rparr>"
    by code_simp
  moreover have "calculate_interview_readiness_score
        [[''overall_score'' \<mapsto> Num (PyInt 57)], [''overall_score'' \<mapsto> Num (PyInt 21)],
         [''overall_score'' \<mapsto> Num (PyFloat (to_double (502 / 10)))],
         [''overall_score'' \<mapsto> Num (PyFloat (to_double (256 / 10)))]]
     = Inr \<lparr>overall_score = PyFloat (to_double (384 / 10)),
            readiness_level = ''Requires Significant Work'',
            recommendations = [''Intensive practice needed. Consider mock interviews''],
            total_questions = Some 4\<rparr>"
    by code_simp
  moreover have "to_double (385 / 10) \<noteq> to_double (384 / 10)"
    by code_simp
  ultimately show ?thesis
    by blast
qed

text \<open>
  C9. An evaluation without the key \<open>overall_score\<close> causes no error: at any
  place of the list it gives the result that the same evaluation with the score 0
  gives, and when the other evaluations sum up to \<open>total_score\<close> the result is
  what the division of that sum by the number of all evaluations, this one counted,
  gives: its error (an integer sum too large for a float), or else its quotient,
  rounded, as the score of a result that counts all evaluations.
\<close>

theorem missing_score_counts_as_zero:
  assumes "eval_data ''overall_score'' = None"
    and "sum_from (PyInt 0) (map (\<lambda>e. dict_get e ''overall_score'' (Num (PyInt 0))) (before @ after))
           = Inr total_score"
  shows "calculate_interview_readiness_score (before @ eval_data # after)
           = calculate_interview_readiness_score
               (before @ eval_data(''overall_score'' \<mapsto> Num (PyInt 0)) # after)
         \<and> (case true_div total_score (int (length before + length after + 1)) of
               Inl e \<Rightarrow> calculate_interview_readiness_score (before @ eval_data # after) = Inl e
             | Inr avg_score \<Rightarrow>
                 (\<exists>r. calculate_interview_readiness_score (before @ eval_data # after) = Inr r
                    \<and> overall_score r = PyFloat (float_round1 avg_score)
                    \<and> total_questions r = Some (length before + length after + 1)))"
proof -
  let ?g = "\<lambda>e. dict_get e ''overall_score'' (Num (PyInt 0))"
  have g: "?g eval_data = Num (PyInt 0)"
    using assms(1) by (simp add: dict_get_def)
  have g': "?g (eval_data(''overall_score'' \<mapsto> Num (PyInt 0))) = Num (PyInt 0)"
    by (simp add: dict_get_def)
  have same: "map ?g (before @ eval_data # after)
                = map ?g (before @ eval_data(''overall_score'' \<mapsto> Num (PyInt 0)) # after)"
    by (simp only: map_append list.map g g')
  have first: "calculate_interview_readiness_score (before @ eval_data # after)
           = calculate_interview_readiness_score
               (before @ eval_data(''overall_score'' \<mapsto> Num (PyInt 0)) # after)"
    by (rule readiness_cong) (simp_all only: same length_append list.size)
  have "map ?g (before @ eval_data # after) = map ?g before @ Num (PyInt 0) # map ?g after"
    by (simp only: map_append list.map g)
  moreover have "is_number (PyInt 0)"
    by simp
  ultimately have "sum_from (PyInt 0) (map ?g (before @ eval_data # after))
               = sum_from (PyInt 0) (map ?g before @ map ?g after)"
    by (simp only: sum_from_insert_zero)
  then have total: "sum_from (PyInt 0) (map ?g (before @ eval_data # after)) = Inr total_score"
    using assms(2) by simp
  have ne: "before @ eval_data # after \<noteq> []"
    by simp
  have len: "length (before @ eval_data # after) = length before + length after + 1"
    by simp
  have second: "case true_div total_score (int (length before + length after + 1)) of
               Inl e \<Rightarrow> calculate_interview_readiness_score (before @ eval_data # after) = Inl e
             | Inr avg_score \<Rightarrow>
                 (\<exists>r. calculate_interview_readiness_score (before @ eval_data # after) = Inr r
                    \<and> overall_score r = PyFloat (float_round1 avg_score)
                    \<and> total_questions r = Some (length before + length after + 1))"
  proof (cases "true_div total_score (int (length before + length after + 1))")
    case (Inl e)
    then have "true_div total_score (int (length (before @ eval_data # after))) = Inl e"
      by (simp only: len)
    with ne total have "calculate_interview_readiness_score (before @ eval_data # after) = Inl e"
      by (rule readiness_division_error)
    then show ?thesis
      by (simp only: Inl sum.case)
  next
    case (Inr avg_score)
    then have "true_div total_score (int (length (before @ eval_data # after))) = Inr avg_score"
      by (simp only: len)
    from readiness_nonempty [OF ne total this] obtain r where
      "calculate_interview_readiness_score (before @ eval_data # after) = Inr r"
      "overall_score r = PyFloat (float_round1 avg_score)"
      "total_questions r = Some (length (before @ eval_data # after))"
      by blast
    then have "\<exists>r. calculate_interview_readiness_score (before @ eval_data # after) = Inr r
                    \<and> overall_score r = PyFloat (float_round1 avg_score)
                    \<and> total_questions r = Some (length before + length after + 1)"
      unfolding len by blast
    then show ?thesis
      by (simp only: Inr sum.case)
  qed
  from first second show ?thesis
    by (rule conjI)
qed

lemma half_of_85: "true_div (PyInt 85) 2 = Inr (Finite (85 / 2))"
  by code_simp

lemma round_half_of_85: "float_round1 (Finite (85 / 2)) = Finite (85 / 2)"
  by code_simp

theorem missing_score_counts_as_zero_witness:
  "[''rating'' \<mapsto> Str ''good''] ''overall_score'' = None
   \<and> sum_from (PyInt 0)
        (map (\<lambda>e. dict_get e ''overall_score'' (Num (PyInt 0))) ([[''overall_score'' \<mapsto> Num (PyInt 85)]] @ []))
       = Inr (PyInt 85)
   \<and> (\<exists>r. calculate_interview_readiness_score
             [[''overall_score'' \<mapsto> Num (PyInt 85)], [''rating'' \<mapsto> Str ''good'']] = Inr r
           \<and> overall_score r = PyFloat (Finite (85 / 2)) \<and> total_questions r = Some 2)"
proof -
  have miss: "[''rating'' \<mapsto> Str ''good''] ''overall_score'' = None"
    by simp
  have tot: "sum_from (PyInt 0)
        (map (\<lambda>e. dict_get e ''overall_score'' (Num (PyInt 0))) ([[''overall_score'' \<mapsto> Num (PyInt 85)]] @ []))
       = Inr (PyInt 85)"
    by (simp add: dict_get_def)
  have n: "int (length [[''overall_score'' \<mapsto> Num (PyInt 85)]] + length ([] :: pydict list) + 1) = 2"
    by simp
  from missing_score_counts_as_zero
        [where eval_data = "[''rating'' \<mapsto> Str ''good'']"
           and before = "[[''overall_score'' \<mapsto> Num (PyInt 85)]]" and after = "[]"
           and total_score = "PyInt 85", OF miss tot, THEN conjunct2]
  have "\<exists>r. calculate_interview_readiness_score
               ([[''overall_score'' \<mapsto> Num (PyInt 85)]] @ [''rating'' \<mapsto> Str ''good''] # []) = Inr r
           \<and> overall_score r = PyFloat (float_round1 (Finite (85 / 2)))
           \<and> total_questions r
                = Some (length [[''overall_score'' \<mapsto> Num (PyInt 85)]] + length ([] :: pydict list) + 1)"
    by (simp only: n half_of_85 sum.case)
  then obtain r where
    r: "calculate_interview_readiness_score
          ([[''overall_score'' \<mapsto> Num (PyInt 85)]] @ [''rating'' \<mapsto> Str ''good''] # []) = Inr r"
       "overall_score r = PyFloat (float_round1 (Finite (85 / 2)))"
       "total_questions r
          = Some (length [[''overall_score'' \<mapsto> Num (PyInt 85)]] + length ([] :: pydict list) + 1)"
    by blast
  have "calculate_interview_readiness_score
             [[''overall_score'' \<mapsto> Num (PyInt 85)], [''rating'' \<mapsto> Str ''good'']] = Inr r"
    using r(1) by simp
  moreover have "overall_score r = PyFloat (Finite (85 / 2))"
    using r(2) by (simp only: round_half_of_85)
  moreover have "total_questions r = Some 2"
    using r(3) by simp
  ultimately have "\<exists>r. calculate_interview_readiness_score
             [[''overall_score'' \<mapsto> Num (PyInt 85)], [''rating'' \<mapsto> Str ''good'']] = Inr r
           \<and> overall_score r = PyFloat (Finite (85 / 2)) \<and> total_questions r = Some 2"
    by blast
  with miss tot show ?thesis
    by blast
qed

section \<open>Properties of the fallback evaluation\<close>

lemma fallback_overall_score:
  "create_fallback_evaluation question user_answer ''overall_score'' =
     Some (Num (PyInt (if 100 < length (py_split user_answer) then 85
                else if 50 < length (py_split user_answer) then 70 else 55)))"
  by (simp add: create_fallback_evaluation_def Let_def)

lemma words_3: "length (py_split ''I used Python'') = 3"
  by code_simp

lemma words_51: "length (py_split (concat (replicate 51 ''a ''))) = 51"
  by code_simp

text \<open>
  C10. The \<open>overall_score\<close> of the fallback evaluation is a function of the number
  of words of the answer alone (the question plays no part): 85 for more than 100
  words, 70 for more than 50, and 55 otherwise. So it is one of 55, 70 and 85, lies
  between 0 and 100, is the same for two answers with the same number of words,
  and does not decrease when the number of words grows.
\<close>

theorem fallback_score_by_word_count:
  "\<exists>s t. create_fallback_evaluation question answer ''overall_score'' = Some (Num (PyInt s))
       \<and> create_fallback_evaluation question' answer' ''overall_score'' = Some (Num (PyInt t))
       \<and> s = (if 100 < length (py_split answer) then 85
              else if 50 < length (py_split answer) then 70 else 55)
       \<and> (s = 55 \<or> s = 70 \<or> s = 85)
       \<and> 0 \<le> s \<and> s \<le> 100
       \<and> (length (py_split answer) = length (py_split answer') \<longrightarrow> s = t)
       \<and> (length (py_split answer) \<le> length (py_split answer') \<longrightarrow> s \<le> t)"
proof -
  define score :: "nat \<Rightarrow> int" where
    "score n = (if 100 < n then 85 else if 50 < n then 70 else 55)" for n
  have a: "create_fallback_evaluation question answer ''overall_score''
             = Some (Num (PyInt (score (length (py_split answer)))))"
    unfolding score_def by (rule fallback_overall_score)
  have b: "create_fallback_evaluation question' answer' ''overall_score''
             = Some (Num (PyInt (score (length (py_split answer')))))"
    unfolding score_def by (rule fallback_overall_score)
  have vals: "score n = 55 \<or> score n = 70 \<or> score n = 85" for n
    by (simp add: score_def)
  have range: "0 \<le> score n \<and> score n \<le> 100" for n
    by (simp add: score_def)
  have mono: "m \<le> n \<longrightarrow> score m \<le> score n" for m n
    by (simp add: score_def)
  have unf: "score (length (py_split answer))
               = (if 100 < length (py_split answer) then 85
                  else if 50 < length (py_split answer) then 70 else 55)"
    by (simp only: score_def)
  have same: "length (py_split answer) = length (py_split answer')
                \<longrightarrow> score (length (py_split answer)) = score (length (py_split answer'))"
    by simp
  show ?thesis
    using a b unf vals [of "length (py_split answer)"] range [of "length (py_split answer)"]
      same mono [of "length (py_split answer)" "length (py_split answer')"]
    by blast
qed

theorem fallback_score_by_word_count_witness:
  "create_fallback_evaluation Map.empty ''I used Python'' ''overall_score'' = Some (Num (PyInt 55))
   \<and> create_fallback_evaluation Map.empty (concat (replicate 51 ''a '')) ''overall_score''
       = Some (Num (PyInt 70))
   \<and> length (py_split ''I used Python'') \<le> length (py_split (concat (replicate 51 ''a '')))"
proof -
  from fallback_score_by_word_count
         [of Map.empty "''I used Python''" Map.empty "concat (replicate 51 ''a '')"]
  obtain s t where
    st: "create_fallback_evaluation Map.empty ''I used Python'' ''overall_score'' = Some (Num (PyInt s))"
        "create_fallback_evaluation Map.empty (concat (replicate 51 ''a '')) ''overall_score''
           = Some (Num (PyInt t))"
        "s = (if 100 < length (py_split ''I used Python'') then 85
              else if 50 < length (py_split ''I used Python'') then 70 else 55)"
    by blast
  have s: "s = 55"
    using st(3) by (simp only: words_3) simp
  have "create_fallback_evaluation Map.empty (concat (replicate 51 ''a '')) ''overall_score''
           = Some (Num (PyInt 70))"
    by (simp only: fallback_overall_score words_51) simp
  then show ?thesis
    using st(1) s by (simp only: words_3 words_51) simp
qed

section \<open>Properties of the skill extraction\<close>

text \<open>
  C6. When the NER extractor raises an exception on a text, the extraction step
  yields exactly what the lexicon extractor yields on the same text; and whenever
  the lexicon extractor returns on the text, the step returns too, whatever the
  NER extractor does.
\<close>

theorem ner_failure_falls_back:
  "(\<forall>e. extract_skills_ner text = Inl e \<longrightarrow>
       extract_skills_step use_ner extract_skills_ner extract_skills text = extract_skills text)
   \<and> (\<forall>lexicon_skills. extract_skills text = Inr lexicon_skills \<longrightarrow>
         (\<exists>skills. extract_skills_step use_ner extract_skills_ner extract_skills text
                      = Inr skills))"
  by (auto simp: extract_skills_step_def split: sum.splits)

theorem ner_failure_falls_back_witness:
  "(\<lambda>text. Inl (Exception ''model not found'')) ''I know Python'' = Inl (Exception ''model not found'')
   \<and> (\<lambda>text. Inr [''python'']) ''I know Python'' = (Inr [''python''] :: py_exception + string list)
   \<and> extract_skills_step True (\<lambda>text. Inl (Exception ''model not found''))
        (\<lambda>text. Inr [''python'']) ''I know Python'' = Inr [''python'']"
  using ner_failure_falls_back
          [of "\<lambda>text. Inl (Exception ''model not found'')" "''I know Python''" True
              "\<lambda>text. Inr [''python'']"]
  by simp

end
